theory Spec2Isabelle
  imports Main "HOL-Library.Sublist" "HOL-Library.Monad_Syntax"
begin

section \<open>The netstat collector (collectors/0/netstat.py)\<close>

text \<open>
  A shallow embedding of \<^verbatim>\<open>parse_and_print_metrics\<close> and \<^verbatim>\<open>main\<close> of
  \<^verbatim>\<open>scalyr_agent/third_party/tcollector/collectors/0/netstat.py\<close>, read as Python 3.

  Conventions of the model.
  \<^item> A Python \<^verbatim>\<open>str\<close> is a HOL \<open>string\<close>; a \<open>char\<close> stands for the code point of the
    same number, so the model covers file contents whose code points are below 256. On
    that range \<^verbatim>\<open>\d\<close>, \<^verbatim>\<open>str.split\<close>, \<^verbatim>\<open>str.splitlines\<close>, \<^verbatim>\<open>int\<close> and \<^verbatim>\<open>repr\<close> are
    written out as CPython defines them.
  \<^item> Everything the function reads from its environment is a parameter: the clock
    reading \<open>ts\<close>, the page size, and the contents of the two files.
  \<^item> Everything it does to its environment is an event of a trace, in program order.
  \<^item> An exception is a value \<open>Inl e\<close> of the result; the trace up to the raise is kept.
  \<^item> \<^verbatim>\<open>assert\<close> statements are enabled (the script is not run with \<^verbatim>\<open>-O\<close>), and the
    interpreter's optional limit on the number of digits of an integer conversion is not
    modelled.
\<close>

subsection \<open>Values, streams, events, exceptions\<close>

datatype pyval = VStr string | VInt int

datatype stream = Stdout | Stderr | Handle nat

datatype src = Sockstat | Netstat

datatype event =
    Time int
  | Seek src
  | ReadAll src
  | Print stream string
  | Flush stream
  | Sleep

datatype error = IndexError | AssertionError | ValueError | AttributeError

abbreviation LF :: char where "LF \<equiv> CHR 0x0A"
abbreviation CR :: char where "CR \<equiv> CHR 0x0D"

subsection \<open>Built-ins: digits, whitespace, \<^verbatim>\<open>str(int)\<close>, \<^verbatim>\<open>int(str)\<close>\<close>

definition is_digit :: "char \<Rightarrow> bool" where
  "is_digit c = (c \<in> set ''0123456789'')"

text \<open>\<^verbatim>\<open>str.isspace\<close> on code points below 256.\<close>

definition is_space :: "char \<Rightarrow> bool" where
  "is_space c = (c \<in> set [CHR 0x09, LF, CHR 0x0B, CHR 0x0C, CR,
                            CHR 0x1C, CHR 0x1D, CHR 0x1E, CHR 0x1F, CHR '' '',
                            CHR 0x85, CHR 0xA0])"

definition digit_of :: "nat \<Rightarrow> char" where
  "digit_of n = ''0123456789'' ! n"

fun str_nat :: "nat \<Rightarrow> string" where
  "str_nat n = (if n < 10 then [digit_of n] else str_nat (n div 10) @ [digit_of (n mod 10)])"

declare str_nat.simps [simp del]

text \<open>\<^verbatim>\<open>str(n)\<close>, which is also what \<^verbatim>\<open>"%d" % n\<close> and \<^verbatim>\<open>"%s" % n\<close> give for an int.\<close>

definition str_int :: "int \<Rightarrow> string" where
  "str_int i = (if i < 0 then CHR ''-'' # str_nat (nat (- i)) else str_nat (nat i))"

text \<open>\<^verbatim>\<open>"%s" % v\<close>.\<close>

fun py_str :: "pyval \<Rightarrow> string" where
  "py_str (VStr s) = s"
| "py_str (VInt i) = str_int i"

definition digit_val :: "char \<Rightarrow> nat" where
  "digit_val c = of_char c - 48"

text \<open>
  The digits of an integer literal in base 10: at least one digit, and single underscores
  only between two digits. The flag says that the previous character was a digit.
\<close>

fun parse_digits :: "nat \<Rightarrow> bool \<Rightarrow> string \<Rightarrow> nat option" where
  "parse_digits acc prev [] = (if prev then Some acc else None)"
| "parse_digits acc prev (c # cs) =
     (if is_digit c then parse_digits (10 * acc + digit_val c) True cs
      else if c = CHR ''_'' \<and> prev then parse_digits acc False cs
      else None)"

text \<open>
  The whitespace that \<^verbatim>\<open>int\<close> skips around the literal: the ASCII whitespace of C and, of the
  other code points below 256, the two that \<^verbatim>\<open>str.isspace\<close> accepts (they are turned into
  spaces before the literal is read). The separators 0x1C to 0x1F are not skipped.
\<close>

definition is_int_space :: "char \<Rightarrow> bool" where
  "is_int_space c = (c \<in> set [CHR 0x09, LF, CHR 0x0B, CHR 0x0C, CR, CHR '' '',
                                CHR 0x85, CHR 0xA0])"

definition strip :: "string \<Rightarrow> string" where
  "strip s = rev (dropWhile is_int_space (rev (dropWhile is_int_space s)))"

text \<open>\<^verbatim>\<open>int(s)\<close> for a string: surrounding whitespace, an optional sign, the digits.\<close>

definition py_int :: "string \<Rightarrow> error + int" where
  "py_int s =
     (case strip s of
        [] \<Rightarrow> Inl ValueError
      | c # cs \<Rightarrow>
          if c = CHR ''-'' then
            (case parse_digits 0 False cs of None \<Rightarrow> Inl ValueError | Some n \<Rightarrow> Inr (- int n))
          else if c = CHR ''+'' then
            (case parse_digits 0 False cs of None \<Rightarrow> Inl ValueError | Some n \<Rightarrow> Inr (int n))
          else
            (case parse_digits 0 False (c # cs) of None \<Rightarrow> Inl ValueError | Some n \<Rightarrow> Inr (int n)))"

text \<open>\<^verbatim>\<open>int(v)\<close> for a value of the counter dictionary: an int is returned as it is.\<close>

fun py_int_val :: "pyval \<Rightarrow> error + int" where
  "py_int_val (VInt i) = Inr i"
| "py_int_val (VStr s) = py_int s"

subsection \<open>Built-ins: \<^verbatim>\<open>repr\<close>\<close>

definition hex_digit :: "nat \<Rightarrow> char" where
  "hex_digit n = ''0123456789abcdef'' ! n"

text \<open>
  \<^verbatim>\<open>str.isprintable\<close> on code points below 256: the controls, DEL, the C1 controls,
  the no-break space and the soft hyphen are not printable.
\<close>

definition is_printable :: "char \<Rightarrow> bool" where
  "is_printable c =
     (let n = (of_char c :: nat)
      in 32 \<le> n \<and> n \<noteq> 127 \<and> \<not> (128 \<le> n \<and> n \<le> 160) \<and> n \<noteq> 173)"

definition repr_char :: "char \<Rightarrow> char \<Rightarrow> string" where
  "repr_char q c =
     (if c = q \<or> c = CHR 0x5C then [CHR 0x5C, c]
      else if c = CHR 0x09 then [CHR 0x5C, CHR ''t'']
      else if c = LF then [CHR 0x5C, CHR ''n'']
      else if c = CR then [CHR 0x5C, CHR ''r'']
      else if is_printable c then [c]
      else [CHR 0x5C, CHR ''x'', hex_digit (of_char c div 16), hex_digit (of_char c mod 16)])"

text \<open>
  \<^verbatim>\<open>repr(s)\<close> of a string: double quotes when the string has a single quote and no double
  quote, single quotes otherwise.
\<close>

definition py_repr :: "string \<Rightarrow> string" where
  "py_repr s =
     (let q = (if CHR 0x27 \<in> set s \<and> CHR 0x22 \<notin> set s then CHR 0x22 else CHR 0x27)
      in q # concat (map (repr_char q) s) @ [q])"

fun join_comma :: "string list \<Rightarrow> string" where
  "join_comma [] = []"
| "join_comma [x] = x"
| "join_comma (x # y # ys) = x @ '', '' @ join_comma (y # ys)"

text \<open>\<^verbatim>\<open>repr(xs)\<close> of a list of strings.\<close>

definition py_repr_list :: "string list \<Rightarrow> string" where
  "py_repr_list xs = ''['' @ join_comma (map py_repr xs) @ '']''"

subsection \<open>Built-ins: \<^verbatim>\<open>str.split()\<close> and \<^verbatim>\<open>str.splitlines()\<close>\<close>

text \<open>
  \<^verbatim>\<open>s.split()\<close>: the maximal runs of characters that are not whitespace. The first
  argument is the token being read.
\<close>

fun split_aux :: "string \<Rightarrow> string \<Rightarrow> string list" where
  "split_aux cur [] = (if cur = [] then [] else [cur])"
| "split_aux cur (c # cs) =
     (if is_space c then (if cur = [] then split_aux [] cs else cur # split_aux [] cs)
      else split_aux (cur @ [c]) cs)"

definition py_split :: "string \<Rightarrow> string list" where
  "py_split s = split_aux [] s"

definition is_linebreak :: "char \<Rightarrow> bool" where
  "is_linebreak c = (c \<in> set [LF, CHR 0x0B, CHR 0x0C, CR, CHR 0x1C, CHR 0x1D, CHR 0x1E, CHR 0x85])"

text \<open>
  \<^verbatim>\<open>s.splitlines()\<close>: the line ends are dropped, CR LF is one line end, and the end of the
  string ends a line only if the line is not empty. The flag says that the previous
  character was a CR that ended a line.
\<close>

fun splitlines_aux :: "string \<Rightarrow> bool \<Rightarrow> string \<Rightarrow> string list" where
  "splitlines_aux cur cr [] = (if cur = [] then [] else [cur])"
| "splitlines_aux cur cr (c # cs) =
     (if cr \<and> c = LF then splitlines_aux cur False cs
      else if is_linebreak c then cur # splitlines_aux [] (c = CR) cs
      else splitlines_aux (cur @ [c]) False cs)"

definition splitlines :: "string \<Rightarrow> string list" where
  "splitlines s = splitlines_aux [] False s"

subsection \<open>The sockstat grammar \<^verbatim>\<open>REGEXP\<close>\<close>

text \<open>The named groups of a match; the two optional groups may not take part.\<close>

record groups =
  tcp_inuse :: string
  orphans :: string
  tw_count :: string
  tcp_sockets :: string
  tcp_pages :: string
  udp_inuse :: string
  udp_pages :: "string option"
  udplite_inuse :: "string option"
  raw_inuse :: string
  ip_frag_nqueues :: string
  ip_frag_mem :: string

text \<open>A literal of the pattern: the rest of the text after it.\<close>

fun lit :: "string \<Rightarrow> string \<Rightarrow> string option" where
  "lit [] s = Some s"
| "lit (p # ps) [] = None"
| "lit (p # ps) (c # cs) = (if p = c then lit ps cs else None)"

text \<open>
  \<^verbatim>\<open>\d+\<close>: the longest run of digits and the rest. Every \<^verbatim>\<open>\d+\<close> of the pattern is followed
  by a literal that starts with a space or a newline, so a shorter run never matches
  where the longest does not.
\<close>

definition digits1 :: "string \<Rightarrow> (string \<times> string) option" where
  "digits1 s = (if takeWhile is_digit s = [] then None
                else Some (takeWhile is_digit s, dropWhile is_digit s))"

text \<open>
  The pattern is matched from its end, each function matching the pattern from one point
  to the end: an optional group is tried first with the rest of the pattern behind it
  and skipped if that fails, as the backtracking matcher does.
\<close>

definition match_frag :: "string \<Rightarrow> (string \<times> string) option" where
  "match_frag s = do {
     s1 \<leftarrow> lit ''FRAG: inuse '' s;
     (nq, s2) \<leftarrow> digits1 s1;
     s3 \<leftarrow> lit '' memory '' s2;
     (mem, s4) \<leftarrow> digits1 s3;
     s5 \<leftarrow> lit [LF] s4;
     Some (nq, mem) }"

definition match_raw :: "string \<Rightarrow> (string \<times> string \<times> string) option" where
  "match_raw s = do {
     s1 \<leftarrow> lit ''RAW: inuse '' s;
     (raw, s2) \<leftarrow> digits1 s1;
     s3 \<leftarrow> lit [LF] s2;
     (nq, mem) \<leftarrow> match_frag s3;
     Some (raw, nq, mem) }"

definition match_udplite :: "string \<Rightarrow> (string option \<times> string \<times> string \<times> string) option" where
  "match_udplite s =
     (case do { s1 \<leftarrow> lit ''UDPLITE: inuse '' s;
                (ul, s2) \<leftarrow> digits1 s1;
                s3 \<leftarrow> lit [LF] s2;
                r \<leftarrow> match_raw s3;
                Some (Some ul, r) }
      of Some r \<Rightarrow> Some r
       | None \<Rightarrow> do { r \<leftarrow> match_raw s; Some (None, r) })"

definition match_udp_mem ::
    "string \<Rightarrow> (string option \<times> string option \<times> string \<times> string \<times> string) option" where
  "match_udp_mem s =
     (case do { s1 \<leftarrow> lit '' mem '' s;
                (up, s2) \<leftarrow> digits1 s1;
                s3 \<leftarrow> lit [LF] s2;
                r \<leftarrow> match_udplite s3;
                Some (Some up, r) }
      of Some r \<Rightarrow> Some r
       | None \<Rightarrow> do { s1 \<leftarrow> lit [LF] s; r \<leftarrow> match_udplite s1; Some (None, r) })"

text \<open>\<^verbatim>\<open>re.match(REGEXP, data)\<close>: the match is anchored at the start of the text only.\<close>

definition match_REGEXP :: "string \<Rightarrow> groups option" where
  "match_REGEXP data = do {
     s1 \<leftarrow> lit ''sockets: used '' data;
     (used, s2) \<leftarrow> digits1 s1;
     s3 \<leftarrow> lit (LF # ''TCP: inuse '') s2;
     (ti, s4) \<leftarrow> digits1 s3;
     s5 \<leftarrow> lit '' orphan '' s4;
     (orp, s6) \<leftarrow> digits1 s5;
     s7 \<leftarrow> lit '' tw '' s6;
     (tw, s8) \<leftarrow> digits1 s7;
     s9 \<leftarrow> lit '' alloc '' s8;
     (ta, s10) \<leftarrow> digits1 s9;
     s11 \<leftarrow> lit '' mem '' s10;
     (tp, s12) \<leftarrow> digits1 s11;
     s13 \<leftarrow> lit (LF # ''UDP: inuse '') s12;
     (ui, s14) \<leftarrow> digits1 s13;
     (up, ul, raw, nq, mem) \<leftarrow> match_udp_mem s14;
     Some \<lparr> tcp_inuse = ti, orphans = orp, tw_count = tw, tcp_sockets = ta,
            tcp_pages = tp, udp_inuse = ui, udp_pages = up, udplite_inuse = ul,
            raw_inuse = raw, ip_frag_nqueues = nq, ip_frag_mem = mem \<rparr> }"

subsection \<open>The static tables\<close>

definition known_netstatstypes :: "(string \<times> string) list" where
  "known_netstatstypes =
     [(''TcpExt:'', ''tcp''),
      (''IpExt:'', ''ip''),
      (''Ip:'', ''ip''),
      (''Icmp:'', ''icmp''),
      (''IcmpMsg:'', ''icmpmsg''),
      (''Tcp:'', ''tcp''),
      (''Udp:'', ''udp''),
      (''UdpLite:'', ''udplite''),
      (''Arista:'', ''arista'')]"

definition known_netstats :: "(string \<times> string \<times> string option) list" where
  "known_netstats =
     [(''SyncookiesSent'', ''syncookies'', Some ''type=sent''),
      (''SyncookiesRecv'', ''syncookies'', Some ''type=received''),
      (''SyncookiesFailed'', ''syncookies'', Some ''type=failed''),
      (''OfoPruned'', ''memory.prune'', Some ''type=drop_ofo_queue''),
      (''RcvPruned'', ''memory.prune'', Some ''type=drop_received''),
      (''DelayedACKs'', ''delayedack'', Some ''type=sent''),
      (''DelayedACKLocked'', ''delayedack'', Some ''type=locked''),
      (''DelayedACKLost'', ''delayedack'', Some ''type=lost''),
      (''ListenOverflows'', ''failed_accept'', Some ''reason=full_acceptq''),
      (''ListenDrops'', ''failed_accept'', Some ''reason=other''),
      (''TCPRenoRecovery'', ''packetloss.recovery'', Some ''type=fast_retransmit''),
      (''TCPSackRecovery'', ''packetloss.recovery'', Some ''type=sack''),
      (''TCPFACKReorder'', ''reording'', Some ''detectedby=fack''),
      (''TCPSACKReorder'', ''reording'', Some ''detectedby=sack''),
      (''TCPRenoReorder'', ''reording'', Some ''detectedby=fast_retransmit''),
      (''TCPTSReorder'', ''reording'', Some ''detectedby=timestamp''),
      (''TCPFullUndo'', ''congestion.recovery'', Some ''type=full_undo''),
      (''TCPPartialUndo'', ''congestion.recovery'', Some ''type=hoe_heuristic''),
      (''TCPDSACKUndo'', ''congestion.recovery'', Some ''type=sack''),
      (''TCPLossUndo'', ''congestion.recovery'', Some ''type=ack''),
      (''TCPAbortOnSyn'', ''abort'', Some ''type=unexpected_syn''),
      (''TCPAbortOnData'', ''abort'', Some ''type=data_after_fin_wait1''),
      (''TCPAbortOnClose'', ''abort'', Some ''type=data_after_close''),
      (''TCPAbortOnMemory'', ''abort'', Some ''type=out_of_memory''),
      (''TCPAbortOnTimeout'', ''abort'', Some ''type=timeout''),
      (''TCPAbortOnLinger'', ''abort'', Some ''type=linger''),
      (''TCPAbortFailed'', ''abort.failed'', None),
      (''TCPMemoryPressures'', ''memory.pressure'', None),
      (''TCPSACKDiscard'', ''invalid_sack'', Some ''type=invalid''),
      (''TCPDSACKIgnoredOld'', ''invalid_sack'', Some ''type=retransmit''),
      (''TCPDSACKIgnoredNoUndo'', ''invalid_sack'', Some ''type=olddup''),
      (''TCPBacklogDrop'', ''receive.queue.full'', None),
      (''OutRsts'', ''resets'', Some ''direction=out''),
      (''InErrs'', ''errors'', Some ''direction=in'')]"

subsection \<open>The two printers\<close>

text \<open>\<^verbatim>\<open>f or default\<close> for an optional file object: a file object is never falsy.\<close>

definition or_default :: "stream option \<Rightarrow> stream \<Rightarrow> stream" where
  "or_default f d = (case f of None \<Rightarrow> d | Some s \<Rightarrow> s)"

text \<open>
  \<^verbatim>\<open>print_sockstat\<close> (lines 138 to 142); \<open>ts\<close> is the variable of the enclosing function.
  One \<open>Print\<close> event is one call of \<^verbatim>\<open>print\<close>: the text and a newline.
\<close>

definition print_sockstat ::
    "int \<Rightarrow> string \<Rightarrow> pyval option \<Rightarrow> string \<Rightarrow> stream option \<Rightarrow> event list" where
  "print_sockstat ts metric val tags output_file_success =
     (case val of
        None \<Rightarrow> []
      | Some v \<Rightarrow>
          [Print (or_default output_file_success Stdout)
             (''net.sockstat.'' @ metric @ '' '' @ str_int ts @ '' '' @ py_str v @ tags)])"

text \<open>\<^verbatim>\<open>print_netstat\<close> (lines 259 to 267): \<^verbatim>\<open>None\<close> and the empty string are falsy tags.\<close>

definition print_netstat ::
    "int \<Rightarrow> string \<Rightarrow> string \<Rightarrow> pyval \<Rightarrow> string option \<Rightarrow> stream option \<Rightarrow> event" where
  "print_netstat ts statstype metric val tags output_file_success =
     (let (space, tags') = (case tags of
                              None \<Rightarrow> ([], [])
                            | Some tg \<Rightarrow> if tg = [] then ([], []) else ('' '', tg))
      in Print (or_default output_file_success Stdout)
           (''net.stat.'' @ statstype @ ''.'' @ metric @ '' '' @ str_int ts @ '' '' @
            py_str val @ space @ tags'))"

subsection \<open>The sockstat metrics (lines 286 to 298)\<close>

text \<open>
  The prints in program order. The two calls of \<^verbatim>\<open>int\<close> can raise; what was printed
  before stays printed. The print of the ipfrag memory passes no stream.
\<close>

definition emit_sockstat :: "int \<Rightarrow> int \<Rightarrow> groups \<Rightarrow> stream \<Rightarrow> event list \<times> (error + unit)" where
  "emit_sockstat ts page_size m out =
     (let es1 =
            print_sockstat ts ''num_sockets'' (Some (VStr (tcp_sockets m))) '' type=tcp'' (Some out) @
            print_sockstat ts ''num_timewait'' (Some (VStr (tw_count m))) [] (Some out) @
            print_sockstat ts ''sockets_inuse'' (Some (VStr (tcp_inuse m))) '' type=tcp'' (Some out) @
            print_sockstat ts ''sockets_inuse'' (Some (VStr (udp_inuse m))) '' type=udp'' (Some out) @
            print_sockstat ts ''sockets_inuse'' (map_option VStr (udplite_inuse m)) '' type=udplite'' (Some out) @
            print_sockstat ts ''sockets_inuse'' (Some (VStr (raw_inuse m))) '' type=raw'' (Some out) @
            print_sockstat ts ''num_orphans'' (Some (VStr (orphans m))) [] (Some out)
      in case py_int (tcp_pages m) of
           Inl e \<Rightarrow> (es1, Inl e)
         | Inr tp \<Rightarrow>
            (let es2 = es1 @
                   print_sockstat ts ''memory'' (Some (VInt (tp * page_size))) '' type=tcp'' (Some out);
                 es4 =
                   print_sockstat ts ''memory'' (Some (VStr (ip_frag_mem m))) '' type=ipfrag'' None @
                   print_sockstat ts ''ipfragqueues'' (Some (VStr (ip_frag_nqueues m))) [] (Some out)
             in case udp_pages m of
                  None \<Rightarrow> (es2 @ es4, Inr ())
                | Some ups \<Rightarrow>
                   (case py_int ups of
                      Inl e \<Rightarrow> (es2, Inl e)
                    | Inr up \<Rightarrow>
                       (es2 @
                        print_sockstat ts ''memory'' (Some (VInt (up * page_size))) '' type=udp'' (Some out) @
                        es4, Inr ()))))"

subsection \<open>Grouping the netstat lines (lines 311 to 326)\<close>

text \<open>\<^verbatim>\<open>statsdikt\<close>: an ordered dictionary from logical section to its lines, in insertion order.\<close>

type_synonym statsdikt = "(string \<times> string list list) list"

text \<open>\<^verbatim>\<open>statsdikt.setdefault(k, []).append(line)\<close>.\<close>

fun setdefault_append :: "statsdikt \<Rightarrow> string \<Rightarrow> string list \<Rightarrow> statsdikt" where
  "setdefault_append [] k l = [(k, [l])]"
| "setdefault_append ((k', ls) # d) k l =
     (if k' = k then (k', ls @ [l]) # d else (k', ls) # setdefault_append d k l)"

definition warning :: "string list \<Rightarrow> string \<Rightarrow> string" where
  "warning line stats =
     ''Unrecoginized line in /proc/net/netstat: '' @ py_repr_list line @
     '' (file='' @ py_repr stats @ '')''"

text \<open>
  The first loop, over the lines of the file: \<open>err\<close> is the error stream, \<open>stats\<close> the
  whole content (for the warning), \<open>d\<close> the dictionary so far. \<^verbatim>\<open>line[0]\<close> of a line with no
  token raises.
\<close>

fun group_lines ::
    "stream \<Rightarrow> string \<Rightarrow> string list \<Rightarrow> statsdikt \<Rightarrow> event list \<times> (error + statsdikt)" where
  "group_lines err stats [] d = ([], Inr d)"
| "group_lines err stats (l # ls) d =
     (case py_split l of
        [] \<Rightarrow> ([], Inl IndexError)
      | h # rest \<Rightarrow>
          if h = ''MPTcpExt:'' then group_lines err stats ls d
          else (case map_of known_netstatstypes h of
                  None \<Rightarrow>
                    (case group_lines err stats ls d of
                       (es, r) \<Rightarrow> (Print err (warning (h # rest) stats) # es, r))
                | Some sec \<Rightarrow> group_lines err stats ls (setdefault_append d sec rest)))"

subsection \<open>Emitting the sections (lines 327 to 338)\<close>

text \<open>\<^verbatim>\<open>dict(list(zip(names, vals)))\<close>: a later pair overrides an earlier one with the same key.\<close>

definition dict_zip :: "string list \<Rightarrow> string list \<Rightarrow> (string \<rightharpoonup> pyval)" where
  "dict_zip names vals = fold (\<lambda>(k, v) m. m(k \<mapsto> VStr v)) (zip names vals) Map.empty"

text \<open>The inner loop over \<^verbatim>\<open>known_netstats\<close>, with \<open>tbl\<close> the entries still to visit.\<close>

fun emit_stats ::
    "int \<Rightarrow> stream \<Rightarrow> string \<Rightarrow> (string \<rightharpoonup> pyval) \<Rightarrow> (string \<times> string \<times> string option) list
     \<Rightarrow> event list" where
  "emit_stats ts out statstype stats [] = []"
| "emit_stats ts out statstype stats ((stat, metric, tags) # tbl) =
     (case stats stat of
        None \<Rightarrow> emit_stats ts out statstype stats tbl
      | Some v \<Rightarrow> print_netstat ts statstype metric v tags (Some out) #
                  emit_stats ts out statstype stats tbl)"

text \<open>
  The correction of ListenDrops (lines 332 to 334): \<^verbatim>\<open>stats.get("ListenOverflows", 0)\<close> is the
  int 0 when the key is absent.
\<close>

definition correct_listen_drops :: "(string \<rightharpoonup> pyval) \<Rightarrow> error + (string \<rightharpoonup> pyval)" where
  "correct_listen_drops stats =
     (case stats ''ListenDrops'' of
        None \<Rightarrow> Inr stats
      | Some v \<Rightarrow>
         (case py_int_val v of
            Inl e \<Rightarrow> Inl e
          | Inr a \<Rightarrow>
             (case py_int_val (case stats ''ListenOverflows'' of None \<Rightarrow> VInt 0 | Some ov \<Rightarrow> ov) of
                Inl e \<Rightarrow> Inl e
              | Inr b \<Rightarrow> Inr (stats(''ListenDrops'' \<mapsto> VInt (a - b))))))"

text \<open>
  One round of the second loop. The assertion and the two conversions come before the
  first print of the section, so a section either raises or prints all its metrics.
\<close>

definition emit_section :: "int \<Rightarrow> stream \<Rightarrow> string \<Rightarrow> string list list \<Rightarrow> error + event list" where
  "emit_section ts out statstype ls =
     (case ls of
        [names, vals] \<Rightarrow>
          (case correct_listen_drops (dict_zip names vals) of
             Inl e \<Rightarrow> Inl e
           | Inr stats \<Rightarrow> Inr (emit_stats ts out statstype stats known_netstats))
      | _ \<Rightarrow> Inl AssertionError)"

fun emit_sections :: "int \<Rightarrow> stream \<Rightarrow> statsdikt \<Rightarrow> event list \<times> (error + unit)" where
  "emit_sections ts out [] = ([], Inr ())"
| "emit_sections ts out ((statstype, ls) # d) =
     (case emit_section ts out statstype ls of
        Inl e \<Rightarrow> ([], Inl e)
      | Inr es \<Rightarrow> (case emit_sections ts out d of (es', r) \<Rightarrow> (es @ es', r)))"

subsection \<open>\<^verbatim>\<open>parse_and_print_metrics\<close>\<close>

text \<open>
  The netstat part of the function (lines 311 to 341). The second loop rebinds the
  variable \<^verbatim>\<open>stats\<close>, which held the content of the file, to the dictionary of each
  section; when no section was collected it is still a \<^verbatim>\<open>str\<close>, which has no method
  \<^verbatim>\<open>clear\<close>, and line 340 raises.
\<close>

definition emit_netstat :: "int \<Rightarrow> string \<Rightarrow> stream \<Rightarrow> stream \<Rightarrow> event list \<times> (error + unit)" where
  "emit_netstat ts stats out err =
     (case group_lines err stats (splitlines stats) [] of
        (es1, Inl e) \<Rightarrow> (es1, Inl e)
      | (es1, Inr d) \<Rightarrow>
         (case emit_sections ts out d of
            (es2, Inl e) \<Rightarrow> (es1 @ es2, Inl e)
          | (es2, Inr u) \<Rightarrow> (es1 @ es2, if d = [] then Inl AttributeError else Inr ())))"

text \<open>
  The whole function: \<open>ts\<close> is the value of \<^verbatim>\<open>int(time.time())\<close>, \<open>page_size\<close> of
  \<^verbatim>\<open>resource.getpagesize()\<close>, \<open>data\<close> and \<open>stats\<close> what the two \<^verbatim>\<open>read()\<close> calls return.
  The result is the trace and either the exception raised or the value returned
  (\<^verbatim>\<open>None\<close> at the end of the function, 13 from line 282).
\<close>

definition parse_and_print_metrics ::
    "int \<Rightarrow> int \<Rightarrow> string \<Rightarrow> string \<Rightarrow> stream option \<Rightarrow> stream option
     \<Rightarrow> event list \<times> (error + int option)" where
  "parse_and_print_metrics ts page_size data stats output_file_success output_file_error =
     (let out = or_default output_file_success Stdout;
          err = or_default output_file_error Stderr;
          start = [Time ts, Seek Sockstat, Seek Netstat, ReadAll Sockstat, ReadAll Netstat]
      in case match_REGEXP data of
           None \<Rightarrow> (start @ [Print err (''Cannot parse sockstat: '' @ py_repr data)], Inr (Some 13))
         | Some m \<Rightarrow>
            (case emit_sockstat ts page_size m out of
               (es1, Inl e) \<Rightarrow> (start @ es1, Inl e)
             | (es1, Inr u) \<Rightarrow>
                (case emit_netstat ts stats out err of
                   (es2, Inl e) \<Rightarrow> (start @ es1 @ es2, Inl e)
                 | (es2, Inr u') \<Rightarrow> (start @ es1 @ es2, Inr None))))"

subsection \<open>\<^verbatim>\<open>main\<close> and the script\<close>

text \<open>What the operating system shows to one round of the loop.\<close>

record pass_env =
  ppid :: int
  now :: int
  sockstat :: string
  netstat :: string

text \<open>
  How \<^verbatim>\<open>main\<close> ends: it returns a value, \<^verbatim>\<open>sys.exit\<close> raises \<^verbatim>\<open>SystemExit\<close>, another
  exception leaves it, or (\<open>Looping\<close>) it is still in its loop after all the rounds
  that were supplied.
\<close>

datatype outcome = Returned int | SystemExit int | Uncaught error | Looping

text \<open>The loop of lines 358 to 366, one round for each environment supplied.\<close>

fun main_loop :: "int \<Rightarrow> pass_env list \<Rightarrow> event list \<times> outcome" where
  "main_loop page_size [] = ([], Looping)"
| "main_loop page_size (e # envs) =
     (if ppid e = 1 then ([], SystemExit 1)
      else (case parse_and_print_metrics (now e) page_size (sockstat e) (netstat e) None None of
              (es, Inl x) \<Rightarrow> (es, Uncaught x)
            | (es, Inr r) \<Rightarrow>
               (case main_loop page_size envs of
                  (es', oc) \<Rightarrow> (es @ [Flush Stdout, Sleep] @ es', oc))))"

text \<open>
  \<^verbatim>\<open>main\<close>: \<open>open_error\<close> is \<^verbatim>\<open>str(e)\<close> of the \<^verbatim>\<open>IOError\<close> when one of the two files cannot be
  opened. Dropping privileges and closing the standard input leave no event.
\<close>

definition main :: "string option \<Rightarrow> int \<Rightarrow> pass_env list \<Rightarrow> event list \<times> outcome" where
  "main open_error page_size envs =
     (case open_error of
        Some msg \<Rightarrow> ([Print Stderr (''Failed to open /proc/net/sockstat: '' @ msg)], Returned 13)
      | None \<Rightarrow> main_loop page_size envs)"

text \<open>
  The exit status of the process under \<^verbatim>\<open>sys.exit(main())\<close>: the value returned, the
  argument of \<^verbatim>\<open>sys.exit\<close>, or 1 when the interpreter ends on an exception nobody caught.
\<close>

fun exit_status :: "outcome \<Rightarrow> int option" where
  "exit_status (Returned n) = Some n"
| "exit_status (SystemExit n) = Some n"
| "exit_status (Uncaught e) = Some 1"
| "exit_status Looping = None"

subsection \<open>The sockstat content of the end-to-end example\<close>

definition sockstat_example :: string where
  "sockstat_example = ''sockets: used 42\<newline>TCP: inuse 5 orphan 1 tw 2 alloc 5 mem 10\<newline>UDP: inuse 3\<newline>RAW: inuse 0\<newline>FRAG: inuse 0 memory 0\<newline>''"

subsection \<open>The netstat content of the ListenDrops example\<close>

definition netstat_example :: string where
  "netstat_example = ''TcpExt: ListenOverflows ListenDrops\<newline>TcpExt: 3 10\<newline>''"

subsection \<open>A netstat content with an empty line\<close>

definition blank_line_example :: string where
  "blank_line_example = ''TcpExt: SyncookiesSent\<newline>\<newline>TcpExt: 1\<newline>''"

subsection \<open>Netstat contents with a section that has not two lines\<close>

definition one_line_example :: string where
  "one_line_example = ''TcpExt: SyncookiesSent\<newline>''"


text \<open>
  The lines of the file that the first loop files under a logical section, and what the
  dictionary holds for a section (nothing when the key is absent).
\<close>

definition in_section :: "string \<Rightarrow> string \<Rightarrow> bool" where
  "in_section sec l =
     (case py_split l of [] \<Rightarrow> False | h # rest \<Rightarrow> map_of known_netstatstypes h = Some sec)"

definition lines_of :: "statsdikt \<Rightarrow> string \<Rightarrow> string list list" where
  "lines_of d sec = (case map_of d sec of None \<Rightarrow> [] | Some ls \<Rightarrow> ls)"

subsection \<open>Reading a metric line\<close>

text \<open>
  The second field of an output line \<^verbatim>\<open><name> <timestamp> <value>[ <tags>]\<close>, as a reader of
  the stream splits it at spaces.
\<close>

definition timestamp_field :: "string \<Rightarrow> string" where
  "timestamp_field l =
     takeWhile (\<lambda>c. c \<noteq> CHR '' '') (tl (dropWhile (\<lambda>c. c \<noteq> CHR '' '') l))"

subsection \<open>Reading the netstat lines and the trace\<close>






section \<open>Properties\<close>

lemma main_loop_outcome:
  "snd (main_loop page_size envs) = Looping \<or> snd (main_loop page_size envs) = SystemExit 1
   \<or> (\<exists>x. snd (main_loop page_size envs) = Uncaught x)"
  by (induction envs) (auto split: prod.splits sum.splits)

text \<open>
  Claim C7. When one of the two files cannot be opened, \<^verbatim>\<open>main\<close> prints the failure to the
  standard error and returns 13 before any round of the loop, so the process ends with
  exit status 13. When the files were opened, the process never ends with status 13 nor
  with status 0: the exit taken when the parent has died has status 1, and so has the end
  on an exception nobody caught.
\<close>

theorem startup_failure_exit_code:
  "main (Some msg) page_size envs =
     ([Print Stderr (''Failed to open /proc/net/sockstat: '' @ msg)], Returned 13)
   \<and> exit_status (snd (main (Some msg) page_size envs)) = Some 13
   \<and> exit_status (snd (main None page_size envs')) \<noteq> Some 13
   \<and> exit_status (snd (main None page_size envs')) \<noteq> Some 0
   \<and> exit_status (snd (main_loop page_size (e\<lparr>ppid := 1\<rparr> # envs'))) = Some 1"
  using main_loop_outcome [of page_size envs']
  by (auto simp: main_def)

lemmas match_defs = match_REGEXP_def match_udp_mem_def match_udplite_def match_raw_def
  match_frag_def digits1_def is_digit_def

lemma match_sockstat_example:
  "match_REGEXP sockstat_example =
     Some \<lparr>tcp_inuse = ''5'', orphans = ''1'', tw_count = ''2'',
     tcp_sockets = ''5'', tcp_pages = ''10'', udp_inuse = ''3'',
     udp_pages = None, udplite_inuse = None, raw_inuse = ''0'',
     ip_frag_nqueues = ''0'', ip_frag_mem = ''0''\<rparr>"
  by (simp add: sockstat_example_def match_defs)

lemma str_int_40960: "str_int 40960 = ''40960''"
  by (simp add: str_int_def str_nat.simps digit_of_def)

lemma py_int_10: "py_int ''10'' = Inr 10"
  by (simp add: py_int_def strip_def is_int_space_def is_digit_def digit_val_def)

lemma emit_sockstat_example:
  "emit_sockstat ts 4096 \<lparr>tcp_inuse = ''5'', orphans = ''1'', tw_count = ''2'',
     tcp_sockets = ''5'', tcp_pages = ''10'', udp_inuse = ''3'',
     udp_pages = None, udplite_inuse = None, raw_inuse = ''0'',
     ip_frag_nqueues = ''0'', ip_frag_mem = ''0''\<rparr> out =
   ([Print out (''net.sockstat.num_sockets '' @ str_int ts @ '' 5 type=tcp''),
     Print out (''net.sockstat.num_timewait '' @ str_int ts @ '' 2''),
     Print out (''net.sockstat.sockets_inuse '' @ str_int ts @ '' 5 type=tcp''),
     Print out (''net.sockstat.sockets_inuse '' @ str_int ts @ '' 3 type=udp''),
     Print out (''net.sockstat.sockets_inuse '' @ str_int ts @ '' 0 type=raw''),
     Print out (''net.sockstat.num_orphans '' @ str_int ts @ '' 1''),
     Print out (''net.sockstat.memory '' @ str_int ts @ '' 40960 type=tcp''),
     Print Stdout (''net.sockstat.memory '' @ str_int ts @ '' 0 type=ipfrag''),
     Print out (''net.sockstat.ipfragqueues '' @ str_int ts @ '' 0'')], Inr ())"
  by (simp add: emit_sockstat_def print_sockstat_def or_default_def py_int_10 str_int_40960)

lemma group_lines_events:
  "group_lines err stats ls d = (es, r) \<Longrightarrow> e \<in> set es \<Longrightarrow>
     \<exists>line. e = Print err (warning line stats)"
proof (induction ls arbitrary: d es r)
  case Nil
  then show ?case by simp
next
  case (Cons l ls)
  show ?case
  proof (cases "py_split l")
    case Nil
    with Cons.prems show ?thesis by simp
  next
    case (Cons h rest)
    note toks = this
    show ?thesis
    proof (cases "h = ''MPTcpExt:''")
      case True
      with toks Cons.prems Cons.IH show ?thesis by simp
    next
      case False
      note not_mp = this
      show ?thesis
      proof (cases "map_of known_netstatstypes h")
        case None
        obtain es' r' where rec: "group_lines err stats ls d = (es', r')"
          by (cases "group_lines err stats ls d")
        with toks not_mp None Cons.prems
        have "e = Print err (warning (h # rest) stats) \<or> e \<in> set es'"
          by auto
        with Cons.IH [OF rec] show ?thesis by blast
      next
        case (Some sec)
        with toks not_mp Cons.prems Cons.IH show ?thesis by simp
      qed
    qed
  qed
qed

lemma emit_stats_events:
  "e \<in> set (emit_stats ts out sec stats tbl) \<Longrightarrow>
     \<exists>stat metric tags v. (stat, metric, tags) \<in> set tbl \<and>
        e = print_netstat ts sec metric v tags (Some out)"
proof (induction tbl)
  case Nil
  then show ?case by simp
next
  case (Cons t tbl)
  obtain stat metric tags where t: "t = (stat, metric, tags)" by (rule prod_cases3)
  show ?case
  proof (cases "stats stat")
    case None
    with Cons.prems t have "e \<in> set (emit_stats ts out sec stats tbl)" by simp
    from Cons.IH [OF this] show ?thesis by auto
  next
    case (Some v)
    with Cons.prems t
    have "e = print_netstat ts sec metric v tags (Some out) \<or>
          e \<in> set (emit_stats ts out sec stats tbl)" by simp
    then show ?thesis
    proof
      assume "e = print_netstat ts sec metric v tags (Some out)"
      with t show ?thesis by auto
    next
      assume "e \<in> set (emit_stats ts out sec stats tbl)"
      from Cons.IH [OF this] show ?thesis by auto
    qed
  qed
qed

lemma emit_section_events:
  assumes "emit_section ts out sec ls = Inr es" and "e \<in> set es"
  shows "\<exists>stat metric tags v. (stat, metric, tags) \<in> set known_netstats \<and>
        e = print_netstat ts sec metric v tags (Some out)"
proof -
  from assms obtain stats where "es = emit_stats ts out sec stats known_netstats"
    unfolding emit_section_def by (auto split: list.splits sum.splits)
  with assms(2) emit_stats_events show ?thesis by blast
qed

lemma emit_sections_events:
  "emit_sections ts out d = (es, r) \<Longrightarrow> e \<in> set es \<Longrightarrow>
     \<exists>sec stat metric tags v. sec \<in> fst ` set d \<and> (stat, metric, tags) \<in> set known_netstats \<and>
        e = print_netstat ts sec metric v tags (Some out)"
proof (induction d arbitrary: es r)
  case Nil
  then show ?case by simp
next
  case (Cons p d)
  obtain sec ls where p: "p = (sec, ls)" by (cases p)
  show ?case
  proof (cases "emit_section ts out sec ls")
    case (Inl x)
    with Cons.prems p show ?thesis by simp
  next
    case (Inr es0)
    obtain es' r' where rec: "emit_sections ts out d = (es', r')"
      by (cases "emit_sections ts out d")
    with Cons.prems p Inr have "e \<in> set es0 \<or> e \<in> set es'"
      by auto
    then show ?thesis
    proof
      assume "e \<in> set es0"
      from emit_section_events [OF Inr this] obtain stat metric tags v
        where a: "(stat, metric, tags) \<in> set known_netstats"
          "e = print_netstat ts sec metric v tags (Some out)" by blast
      have "sec \<in> fst ` set (p # d)" using p by simp
      with a show ?thesis by blast
    next
      assume "e \<in> set es'"
      from Cons.IH [OF rec this] obtain sec' stat metric tags v
        where a: "sec' \<in> fst ` set d" "(stat, metric, tags) \<in> set known_netstats"
          "e = print_netstat ts sec' metric v tags (Some out)" by blast
      have "sec' \<in> fst ` set (p # d)" using a(1) by simp
      with a show ?thesis by blast
    qed
  qed
qed

lemma print_netstat_text:
  "\<exists>rest. print_netstat ts sec metric v tags (Some out) =
      Print out (''net.stat.'' @ sec @ ''.'' @ metric @ '' '' @ str_int ts @ '' '' @ rest)"
  by (auto simp: print_netstat_def or_default_def split: option.splits)

lemma emit_netstat_cases:
  assumes "emit_netstat ts stats out err = (es, r)" and "e \<in> set es"
  shows "(\<exists>es1 r1. group_lines err stats (splitlines stats) [] = (es1, r1) \<and> e \<in> set es1) \<or>
         (\<exists>w d es2 r2. group_lines err stats (splitlines stats) [] = (w, Inr d) \<and>
            emit_sections ts out d = (es2, r2) \<and> e \<in> set es2)"
proof -
  obtain es1 r1 where g: "group_lines err stats (splitlines stats) [] = (es1, r1)"
    by (cases "group_lines err stats (splitlines stats) []")
  show ?thesis
  proof (cases r1)
    case (Inl x)
    with assms g show ?thesis by (simp add: emit_netstat_def)
  next
    case (Inr d)
    obtain es2 r2 where s: "emit_sections ts out d = (es2, r2)"
      by (cases "emit_sections ts out d")
    with assms g Inr have "e \<in> set es1 \<or> e \<in> set es2"
      by (auto simp: emit_netstat_def split: sum.splits)
    with g Inr s show ?thesis by auto
  qed
qed

lemma emit_netstat_events:
  assumes "emit_netstat ts stats out err = (es, r)" and "e \<in> set es"
  shows "(\<exists>line. e = Print err (warning line stats)) \<or>
         (\<exists>rest. e = Print out (''net.stat.'' @ rest))"
  using emit_netstat_cases [OF assms]
proof (elim disjE exE conjE)
  fix es1 r1
  assume "group_lines err stats (splitlines stats) [] = (es1, r1)" "e \<in> set es1"
  from group_lines_events [OF this] show ?thesis by blast
next
  fix w d es2 r2
  assume "emit_sections ts out d = (es2, r2)" "e \<in> set es2"
  from emit_sections_events [OF this] obtain sec metric v tags
    where "e = print_netstat ts sec metric v tags (Some out)" by blast
  with print_netstat_text [of ts sec metric v tags out] show ?thesis by auto
qed

lemma pass_events_matched:
  assumes "match_REGEXP data = Some m" and "emit_sockstat ts ps m (or_default ofs Stdout) = (es1, Inr ())"
  shows "fst (parse_and_print_metrics ts ps data stats ofs ofe) =
           [Time ts, Seek Sockstat, Seek Netstat, ReadAll Sockstat, ReadAll Netstat] @ es1 @
           fst (emit_netstat ts stats (or_default ofs Stdout) (or_default ofe Stderr))"
    and "snd (parse_and_print_metrics ts ps data stats ofs ofe) =
           (case snd (emit_netstat ts stats (or_default ofs Stdout) (or_default ofe Stderr)) of
              Inl e \<Rightarrow> Inl e | Inr u \<Rightarrow> Inr None)"
  using assms by (auto simp: parse_and_print_metrics_def split: prod.splits sum.splits)

lemma netstat_event_not_sockstat:
  assumes "e \<in> set (fst (emit_netstat ts stats out err))"
  shows "\<exists>s l. e = Print s l \<and> \<not> prefix ''net.sockstat.'' l"
proof -
  obtain es r where "emit_netstat ts stats out err = (es, r)"
    by (cases "emit_netstat ts stats out err")
  with assms emit_netstat_events [of ts stats out err es r e]
  show ?thesis by (auto simp: warning_def)
qed

text \<open>
  Claim C5. For the sockstat content of the example and a page size of 4096, whatever the
  netstat content, the clock reading and the streams, the trace of the function is the
  start of the pass, then exactly nine sockstat prints, then the events of the netstat
  part, none of which is a line that starts with \<^verbatim>\<open>net.sockstat.\<close>. Among the nine are
  \<^verbatim>\<open>net.sockstat.memory <ts> 40960 type=tcp\<close>, \<^verbatim>\<open>net.sockstat.sockets_inuse <ts> 5 type=tcp\<close>
  and \<^verbatim>\<open>net.sockstat.sockets_inuse <ts> 3 type=udp\<close>; the two optional fields that the content
  does not have give no print at all: there is no line for \<^verbatim>\<open>type=udplite\<close> and none that
  starts with \<^verbatim>\<open>net.sockstat.memory\<close> and ends with \<^verbatim>\<open>type=udp\<close>.
\<close>

theorem sockstat_example_metrics:
  "fst (parse_and_print_metrics ts 4096 sockstat_example stats ofs ofe) =
     [Time ts, Seek Sockstat, Seek Netstat, ReadAll Sockstat, ReadAll Netstat] @
     [Print (or_default ofs Stdout) (''net.sockstat.num_sockets '' @ str_int ts @ '' 5 type=tcp''),
      Print (or_default ofs Stdout) (''net.sockstat.num_timewait '' @ str_int ts @ '' 2''),
      Print (or_default ofs Stdout) (''net.sockstat.sockets_inuse '' @ str_int ts @ '' 5 type=tcp''),
      Print (or_default ofs Stdout) (''net.sockstat.sockets_inuse '' @ str_int ts @ '' 3 type=udp''),
      Print (or_default ofs Stdout) (''net.sockstat.sockets_inuse '' @ str_int ts @ '' 0 type=raw''),
      Print (or_default ofs Stdout) (''net.sockstat.num_orphans '' @ str_int ts @ '' 1''),
      Print (or_default ofs Stdout) (''net.sockstat.memory '' @ str_int ts @ '' 40960 type=tcp''),
      Print Stdout (''net.sockstat.memory '' @ str_int ts @ '' 0 type=ipfrag''),
      Print (or_default ofs Stdout) (''net.sockstat.ipfragqueues '' @ str_int ts @ '' 0'')] @
     fst (emit_netstat ts stats (or_default ofs Stdout) (or_default ofe Stderr))
   \<and> \<not> (\<exists>s l. Print s l \<in> set (fst (emit_netstat ts stats (or_default ofs Stdout)
                                          (or_default ofe Stderr)))
            \<and> prefix ''net.sockstat.'' l)
   \<and> Print (or_default ofs Stdout) (''net.sockstat.memory '' @ str_int ts @ '' 40960 type=tcp'')
     \<in> set (fst (parse_and_print_metrics ts 4096 sockstat_example stats ofs ofe))
   \<and> Print (or_default ofs Stdout) (''net.sockstat.sockets_inuse '' @ str_int ts @ '' 5 type=tcp'')
     \<in> set (fst (parse_and_print_metrics ts 4096 sockstat_example stats ofs ofe))
   \<and> Print (or_default ofs Stdout) (''net.sockstat.sockets_inuse '' @ str_int ts @ '' 3 type=udp'')
     \<in> set (fst (parse_and_print_metrics ts 4096 sockstat_example stats ofs ofe))
   \<and> \<not> (\<exists>s l. Print s l \<in> set (fst (parse_and_print_metrics ts 4096 sockstat_example stats ofs ofe))
            \<and> prefix ''net.sockstat.memory '' l \<and> suffix ''type=udp'' l)
   \<and> \<not> (\<exists>s l. Print s l \<in> set (fst (parse_and_print_metrics ts 4096 sockstat_example stats ofs ofe))
            \<and> prefix ''net.sockstat.'' l \<and> suffix ''type=udplite'' l)"
proof -
  let ?evs = "fst (parse_and_print_metrics ts 4096 sockstat_example stats ofs ofe)"
  let ?out = "or_default ofs Stdout"
  let ?net = "fst (emit_netstat ts stats ?out (or_default ofe Stderr))"
  note evs = pass_events_matched(1) [OF match_sockstat_example emit_sockstat_example]
  have 0: "?evs =
     [Time ts, Seek Sockstat, Seek Netstat, ReadAll Sockstat, ReadAll Netstat] @
     [Print ?out (''net.sockstat.num_sockets '' @ str_int ts @ '' 5 type=tcp''),
      Print ?out (''net.sockstat.num_timewait '' @ str_int ts @ '' 2''),
      Print ?out (''net.sockstat.sockets_inuse '' @ str_int ts @ '' 5 type=tcp''),
      Print ?out (''net.sockstat.sockets_inuse '' @ str_int ts @ '' 3 type=udp''),
      Print ?out (''net.sockstat.sockets_inuse '' @ str_int ts @ '' 0 type=raw''),
      Print ?out (''net.sockstat.num_orphans '' @ str_int ts @ '' 1''),
      Print ?out (''net.sockstat.memory '' @ str_int ts @ '' 40960 type=tcp''),
      Print Stdout (''net.sockstat.memory '' @ str_int ts @ '' 0 type=ipfrag''),
      Print ?out (''net.sockstat.ipfragqueues '' @ str_int ts @ '' 0'')] @ ?net"
    by (rule evs)
  have net: "\<not> prefix ''net.sockstat.'' l" if "Print s l \<in> set ?net" for s l
    using netstat_event_not_sockstat [OF that] by simp
  have 1: "Print ?out (''net.sockstat.memory '' @ str_int ts @ '' 40960 type=tcp'') \<in> set ?evs"
    by (simp add: evs)
  have 2: "Print ?out (''net.sockstat.sockets_inuse '' @ str_int ts @ '' 5 type=tcp'') \<in> set ?evs"
    by (simp add: evs)
  have 3: "Print ?out (''net.sockstat.sockets_inuse '' @ str_int ts @ '' 3 type=udp'') \<in> set ?evs"
    by (simp add: evs)
  have sock: "l \<in> {''net.sockstat.num_sockets '' @ str_int ts @ '' 5 type=tcp'',
        ''net.sockstat.num_timewait '' @ str_int ts @ '' 2'',
        ''net.sockstat.sockets_inuse '' @ str_int ts @ '' 5 type=tcp'',
        ''net.sockstat.sockets_inuse '' @ str_int ts @ '' 3 type=udp'',
        ''net.sockstat.sockets_inuse '' @ str_int ts @ '' 0 type=raw'',
        ''net.sockstat.num_orphans '' @ str_int ts @ '' 1'',
        ''net.sockstat.memory '' @ str_int ts @ '' 40960 type=tcp'',
        ''net.sockstat.memory '' @ str_int ts @ '' 0 type=ipfrag'',
        ''net.sockstat.ipfragqueues '' @ str_int ts @ '' 0''}"
    if "Print s l \<in> set ?evs" "Print s l \<notin> set ?net" for s l
    using that by (auto simp: evs)
  have 4: "\<not> (prefix ''net.sockstat.memory '' l \<and> suffix ''type=udp'' l)"
    if "Print s l \<in> set ?evs" for s l
  proof (cases "Print s l \<in> set ?net")
    case True
    from net [OF this] show ?thesis by (auto simp: prefix_def)
  next
    case False
    from sock [OF that this] show ?thesis
      by (auto simp: suffix_to_prefix)
  qed
  have 5: "\<not> (prefix ''net.sockstat.'' l \<and> suffix ''type=udplite'' l)"
    if "Print s l \<in> set ?evs" for s l
  proof (cases "Print s l \<in> set ?net")
    case True
    from net [OF this] show ?thesis by simp
  next
    case False
    from sock [OF that this] show ?thesis
      by (auto simp: suffix_to_prefix)
  qed
  from net have 6: "\<not> (\<exists>s l. Print s l \<in> set ?net \<and> prefix ''net.sockstat.'' l)" by blast
  from 4 have 7: "\<not> (\<exists>s l. Print s l \<in> set ?evs \<and> prefix ''net.sockstat.memory '' l
      \<and> suffix ''type=udp'' l)" by blast
  from 5 have 8: "\<not> (\<exists>s l. Print s l \<in> set ?evs \<and> prefix ''net.sockstat.'' l
      \<and> suffix ''type=udplite'' l)" by blast
  from 0 1 2 3 6 7 8 show ?thesis by (intro conjI)
qed

text \<open>
  Claim C4. With the success stream configured as \<open>Handle 1\<close>, the ipfrag memory line of the
  example is printed on the standard output and not on the configured stream, while the
  ipfragqueues line (like every other sockstat line) is printed on the configured stream:
  the call of line 297 is the only one that does not pass the stream on.
\<close>

theorem ipfrag_memory_goes_to_stdout:
  "Print Stdout (''net.sockstat.memory '' @ str_int ts @ '' 0 type=ipfrag'')
     \<in> set (fst (parse_and_print_metrics ts 4096 sockstat_example stats (Some (Handle 1)) ofe))
   \<and> Print (Handle 1) (''net.sockstat.ipfragqueues '' @ str_int ts @ '' 0'')
     \<in> set (fst (parse_and_print_metrics ts 4096 sockstat_example stats (Some (Handle 1)) ofe))
   \<and> Print (Handle 1) (''net.sockstat.memory '' @ str_int ts @ '' 0 type=ipfrag'')
     \<notin> set (fst (parse_and_print_metrics ts 4096 sockstat_example stats (Some (Handle 1)) ofe))"
proof -
  note evs = pass_events_matched(1) [OF match_sockstat_example emit_sockstat_example]
  have "Print (Handle 1) (''net.sockstat.memory '' @ str_int ts @ '' 0 type=ipfrag'')
     \<notin> set (fst (emit_netstat ts stats (Handle 1) (or_default ofe Stderr)))"
    using netstat_event_not_sockstat [of "Print (Handle 1) (''net.sockstat.memory '' @ str_int ts @ '' 0 type=ipfrag'')" ts stats "Handle 1" "or_default ofe Stderr"]
    by auto
  then show ?thesis
    by (simp add: evs or_default_def)
qed

lemmas split_defs = splitlines_def is_linebreak_def py_split_def is_space_def

lemma splitlines_netstat_example:
  "splitlines netstat_example = [''TcpExt: ListenOverflows ListenDrops'', ''TcpExt: 3 10'']"
  by (simp add: netstat_example_def split_defs)

lemma py_split_example_lines:
  "py_split ''TcpExt: ListenOverflows ListenDrops'' = [''TcpExt:'', ''ListenOverflows'', ''ListenDrops'']"
  "py_split ''TcpExt: 3 10'' = [''TcpExt:'', ''3'', ''10'']"
  by (simp_all add: split_defs)

lemma group_lines_netstat_example:
  "group_lines err stats (splitlines netstat_example) [] =
     ([], Inr [(''tcp'', [[''ListenOverflows'', ''ListenDrops''], [''3'', ''10'']])])"
  by (simp add: splitlines_netstat_example py_split_example_lines known_netstatstypes_def)


lemma py_int_examples: "py_int ''3'' = Inr 3" "py_int ''10'' = Inr 10"
  by (simp_all add: py_int_def strip_def is_int_space_def is_digit_def digit_val_def)

lemma str_int_examples: "str_int 7 = ''7''" "str_int 3 = ''3''"
  by (simp_all add: str_int_def str_nat.simps digit_of_def)

lemma dict_zip_example:
  "dict_zip [''ListenOverflows'', ''ListenDrops''] [''3'', ''10''] =
     [''ListenOverflows'' \<mapsto> VStr ''3'', ''ListenDrops'' \<mapsto> VStr ''10'']"
  by (simp add: dict_zip_def)

lemma emit_section_example:
  "emit_section ts out sec [[''ListenOverflows'', ''ListenDrops''], [''3'', ''10'']] =
     Inr [Print out (''net.stat.'' @ sec @ ''.failed_accept '' @ str_int ts @ '' 3 reason=full_acceptq''),
          Print out (''net.stat.'' @ sec @ ''.failed_accept '' @ str_int ts @ '' 7 reason=other'')]"
  by (simp add: emit_section_def dict_zip_example correct_listen_drops_def py_int_examples
      known_netstats_def print_netstat_def or_default_def str_int_examples)



text \<open>
  Claim C1, as the code has it. When the sockstat content does not match the grammar, the
  function prints the raw content (its \<^verbatim>\<open>repr\<close>) on the error stream and returns 13 at
  once: no metric is printed, and the netstat content has no part in the result.
\<close>

theorem sockstat_mismatch_returns:
  assumes "match_REGEXP data = None"
  shows "parse_and_print_metrics ts page_size data stats ofs ofe =
           ([Time ts, Seek Sockstat, Seek Netstat, ReadAll Sockstat, ReadAll Netstat,
             Print (or_default ofe Stderr) (''Cannot parse sockstat: '' @ py_repr data)],
            Inr (Some 13))"
  using assms by (simp add: parse_and_print_metrics_def)

lemma match_garbage: "match_REGEXP ''garbage'' = None"
  by (simp add: match_defs)

lemma py_repr_garbage: "py_repr ''garbage'' = [CHR 0x27] @ ''garbage'' @ [CHR 0x27]"
  by (simp add: py_repr_def Let_def repr_char_def is_printable_def)

theorem sockstat_mismatch_returns_witness:
  "match_REGEXP ''garbage'' = None
   \<and> parse_and_print_metrics 100 4096 ''garbage'' netstat_example None None =
       ([Time 100, Seek Sockstat, Seek Netstat, ReadAll Sockstat, ReadAll Netstat,
         Print Stderr (''Cannot parse sockstat: '' @ [CHR 0x27] @ ''garbage'' @ [CHR 0x27])],
        Inr (Some 13))"
  using sockstat_mismatch_returns [OF match_garbage, of 100 4096 netstat_example None None]
  by (simp add: match_garbage py_repr_garbage or_default_def)

text \<open>
  The claim as the specification states it fails: with a sockstat content that does not
  match and the netstat content of the ListenDrops example, the netstat part alone would
  print two metrics, and the function prints neither.
\<close>

theorem sockstat_mismatch_skips_netstat:
  "match_REGEXP ''garbage'' = None
   \<and> fst (emit_netstat 100 netstat_example Stdout Stderr) =
       [Print Stdout ''net.stat.tcp.failed_accept 100 3 reason=full_acceptq'',
        Print Stdout ''net.stat.tcp.failed_accept 100 7 reason=other'']
   \<and> Print Stdout ''net.stat.tcp.failed_accept 100 7 reason=other''
       \<notin> set (fst (parse_and_print_metrics 100 4096 ''garbage'' netstat_example None None))
   \<and> Print Stdout ''net.stat.tcp.failed_accept 100 3 reason=full_acceptq''
       \<notin> set (fst (parse_and_print_metrics 100 4096 ''garbage'' netstat_example None None))
   \<and> snd (parse_and_print_metrics 100 4096 ''garbage'' netstat_example None None) = Inr (Some 13)"
proof -
  have ts: "str_int 100 = ''100''"
    by (simp add: str_int_def str_nat.simps digit_of_def)
  have 1: "fst (emit_netstat 100 netstat_example Stdout Stderr) =
       [Print Stdout ''net.stat.tcp.failed_accept 100 3 reason=full_acceptq'',
        Print Stdout ''net.stat.tcp.failed_accept 100 7 reason=other'']"
    by (simp add: emit_netstat_def group_lines_netstat_example emit_section_example ts)
  have 2: "parse_and_print_metrics 100 4096 ''garbage'' netstat_example None None =
       ([Time 100, Seek Sockstat, Seek Netstat, ReadAll Sockstat, ReadAll Netstat,
         Print Stderr (''Cannot parse sockstat: '' @ py_repr ''garbage'')],
        Inr (Some 13))"
    by (simp add: parse_and_print_metrics_def match_garbage or_default_def)
  show ?thesis
    by (simp add: match_garbage 1 2)
qed








lemma parse_digits_all_digits:
  "\<forall>c \<in> set ds. is_digit c \<Longrightarrow> ds \<noteq> [] \<or> prev \<Longrightarrow> \<exists>n. parse_digits acc prev ds = Some n"
  by (induction ds arbitrary: acc prev) auto

lemma digit_not_space: "is_digit c \<Longrightarrow> \<not> is_int_space c"
  by (auto simp: is_digit_def is_int_space_def)

lemma strip_digits:
  assumes "\<forall>c \<in> set ds. is_digit c"
  shows "strip ds = ds"
proof -
  have "dropWhile is_int_space ds = ds"
    using assms by (cases ds) (auto dest: digit_not_space)
  moreover have "dropWhile is_int_space (rev ds) = rev ds"
    using assms by (cases "rev ds") (auto dest: digit_not_space)
  ultimately show ?thesis by (simp add: strip_def)
qed

lemma py_int_digits:
  assumes "\<forall>c \<in> set ds. is_digit c" and "ds \<noteq> []"
  shows "\<exists>n. py_int ds = Inr n"
proof -
  from assms obtain c cs where ds: "ds = c # cs" by (cases ds) auto
  with assms have c: "is_digit c" by simp
  then have sign: "c \<noteq> CHR ''-''" "c \<noteq> CHR ''+''" by (auto simp: is_digit_def)
  from parse_digits_all_digits [OF assms(1), of False 0] assms(2)
  obtain n where "parse_digits 0 False ds = Some n" by auto
  with ds sign strip_digits [OF assms(1)] show ?thesis
    by (simp add: py_int_def)
qed

lemma digits1_digits:
  "digits1 s = Some (ds, r) \<Longrightarrow> (\<forall>c \<in> set ds. is_digit c) \<and> ds \<noteq> []"
  by (auto simp: digits1_def split: if_splits dest: set_takeWhileD)

lemma py_int_digits1: "digits1 s = Some (ds, r) \<Longrightarrow> \<exists>n. py_int ds = Inr n"
  using digits1_digits py_int_digits by blast

lemma match_udp_mem_pages:
  "match_udp_mem s = Some (Some up, r) \<Longrightarrow> \<exists>n. py_int up = Inr n"
proof -
  assume "match_udp_mem s = Some (Some up, r)"
  then obtain s' r' where "digits1 s' = Some (up, r')"
    by (auto simp: match_udp_mem_def split: option.splits bind_splits)
  then show ?thesis by (rule py_int_digits1)
qed

lemma match_REGEXP_pages:
  assumes "match_REGEXP data = Some m"
  shows "\<exists>n. py_int (tcp_pages m) = Inr n"
    and "udp_pages m = Some up \<Longrightarrow> \<exists>n. py_int up = Inr n"
proof -
  from assms obtain s r where "digits1 s = Some (tcp_pages m, r)"
    by (auto simp: match_REGEXP_def split: bind_splits)
  then show "\<exists>n. py_int (tcp_pages m) = Inr n" by (rule py_int_digits1)
next
  assume "udp_pages m = Some up"
  with assms obtain s r where "match_udp_mem s = Some (Some up, r)"
    by (auto simp: match_REGEXP_def split: bind_splits)
  then show "\<exists>n. py_int up = Inr n" by (rule match_udp_mem_pages)
qed

lemma emit_sockstat_returns:
  assumes "match_REGEXP data = Some m"
  shows "snd (emit_sockstat ts page_size m out) = Inr ()"
proof -
  from match_REGEXP_pages(1) [OF assms] obtain tp where tp: "py_int (tcp_pages m) = Inr tp" ..
  show ?thesis
  proof (cases "udp_pages m")
    case None
    with tp show ?thesis by (simp add: emit_sockstat_def Let_def)
  next
    case (Some ups)
    from match_REGEXP_pages(2) [OF assms Some] obtain up where "py_int ups = Inr up" ..
    with tp Some show ?thesis by (simp add: emit_sockstat_def Let_def)
  qed
qed

lemma group_lines_IndexError:
  "\<exists>l \<in> set ls. py_split l = [] \<Longrightarrow> snd (group_lines err stats ls d) = Inl IndexError"
proof (induction ls arbitrary: d)
  case Nil
  then show ?case by simp
next
  case (Cons l ls)
  show ?case
  proof (cases "py_split l")
    case Nil
    then show ?thesis by simp
  next
    case (Cons h rest)
    with Cons.prems have "\<exists>l \<in> set ls. py_split l = []" by auto
    then have ih: "snd (group_lines err stats ls d') = Inl IndexError" for d'
      by (rule Cons.IH)
    show ?thesis
    proof (cases "map_of known_netstatstypes h")
      case None
      with Cons ih [of d] show ?thesis
        by (cases "group_lines err stats ls d") simp
    next
      case (Some sec)
      with Cons ih [of d] ih [of "setdefault_append d sec rest"] show ?thesis
        by simp
    qed
  qed
qed

lemma pass_result_matched:
  assumes "match_REGEXP data = Some m"
  shows "snd (parse_and_print_metrics ts ps data stats ofs ofe) =
           (case snd (emit_netstat ts stats (or_default ofs Stdout) (or_default ofe Stderr)) of
              Inl e \<Rightarrow> Inl e | Inr u \<Rightarrow> Inr None)"
proof -
  obtain es1 where "emit_sockstat ts ps m (or_default ofs Stdout) = (es1, Inr ())"
    using emit_sockstat_returns [OF assms, of ts ps "or_default ofs Stdout"]
    by (cases "emit_sockstat ts ps m (or_default ofs Stdout)") auto
  from pass_events_matched(2) [OF assms this] show ?thesis .
qed

lemma emit_netstat_IndexError:
  assumes "\<exists>l \<in> set (splitlines stats). py_split l = []"
  shows "snd (emit_netstat ts stats out err) = Inl IndexError"
  using group_lines_IndexError [OF assms, of err stats "[]"]
  by (cases "group_lines err stats (splitlines stats) []") (simp add: emit_netstat_def)

lemma main_loop_uncaught:
  assumes "ppid e \<noteq> 1"
    and "snd (parse_and_print_metrics (now e) ps (sockstat e) (netstat e) None None) = Inl x"
  shows "main None ps (e # envs) =
           (fst (parse_and_print_metrics (now e) ps (sockstat e) (netstat e) None None), Uncaught x)"
  using assms
  by (cases "parse_and_print_metrics (now e) ps (sockstat e) (netstat e) None None")
     (simp add: main_def)

text \<open>
  Claim C9. When a line of the netstat content has no token, the first loop raises
  \<^verbatim>\<open>IndexError\<close> at \<^verbatim>\<open>line[0]\<close>, whatever the dictionary collected so far; in a call that
  reaches the netstat part (the sockstat content matched) the exception leaves
  \<^verbatim>\<open>parse_and_print_metrics\<close>, and in \<^verbatim>\<open>main\<close> it leaves the loop: the process ends on the
  exception, with exit status 1, and the rounds that would follow are not performed.
\<close>

theorem empty_line_raises_IndexError:
  assumes "l \<in> set (splitlines stats)" and "py_split l = []"
  shows "snd (group_lines err stats (splitlines stats) d) = Inl IndexError
         \<and> (match_REGEXP data \<noteq> None \<longrightarrow>
              snd (parse_and_print_metrics ts page_size data stats ofs ofe) = Inl IndexError)
         \<and> (match_REGEXP (sockstat e) \<noteq> None \<and> netstat e = stats \<and> ppid e \<noteq> 1 \<longrightarrow>
              snd (main None page_size (e # envs)) = Uncaught IndexError
              \<and> fst (main None page_size (e # envs)) =
                  fst (parse_and_print_metrics (now e) page_size (sockstat e) stats None None)
              \<and> exit_status (snd (main None page_size (e # envs))) = Some 1)"
proof -
  from assms have ex: "\<exists>l \<in> set (splitlines stats). py_split l = []" by blast
  have 1: "snd (group_lines err stats (splitlines stats) d) = Inl IndexError"
    by (rule group_lines_IndexError [OF ex])
  have 2: "snd (parse_and_print_metrics ts' ps data' stats ofs' ofe') = Inl IndexError"
    if "match_REGEXP data' \<noteq> None" for ts' ps data' ofs' ofe'
  proof -
    from that obtain m where "match_REGEXP data' = Some m" by auto
    from pass_result_matched [OF this] emit_netstat_IndexError [OF ex]
    show ?thesis by simp
  qed
  have 3: "snd (main None page_size (e # envs)) = Uncaught IndexError
           \<and> fst (main None page_size (e # envs)) =
                  fst (parse_and_print_metrics (now e) page_size (sockstat e) stats None None)
           \<and> exit_status (snd (main None page_size (e # envs))) = Some 1"
    if "match_REGEXP (sockstat e) \<noteq> None" "netstat e = stats" "ppid e \<noteq> 1"
  proof -
    from 2 [OF that(1)] that(2)
    have "snd (parse_and_print_metrics (now e) page_size (sockstat e) (netstat e) None None) = Inl IndexError"
      by simp
    from main_loop_uncaught [OF that(3) this] that(2) show ?thesis by simp
  qed
  from 1 2 3 show ?thesis by blast
qed

theorem empty_line_raises_IndexError_witness:
  "[] \<in> set (splitlines blank_line_example) \<and> py_split [] = []
   \<and> match_REGEXP sockstat_example \<noteq> None
   \<and> snd (parse_and_print_metrics 100 4096 sockstat_example blank_line_example None None) = Inl IndexError
   \<and> snd (main None 4096
        [\<lparr>ppid = 7, now = 100, sockstat = sockstat_example, netstat = blank_line_example\<rparr>,
         \<lparr>ppid = 7, now = 130, sockstat = sockstat_example, netstat = netstat_example\<rparr>])
       = Uncaught IndexError"
proof -
  have a: "[] \<in> set (splitlines blank_line_example)"
    by (simp add: blank_line_example_def split_defs)
  have b: "py_split [] = []" by (simp add: py_split_def)
  have c: "match_REGEXP sockstat_example \<noteq> None" by (simp add: match_sockstat_example)
  from empty_line_raises_IndexError [OF a b, of Stderr "[]" sockstat_example 100 4096 None None
      "\<lparr>ppid = 7, now = 100, sockstat = sockstat_example, netstat = blank_line_example\<rparr>"
      "[\<lparr>ppid = 7, now = 130, sockstat = sockstat_example, netstat = netstat_example\<rparr>]"] a b c
  show ?thesis by simp
qed

lemma map_of_setdefault_append:
  "map_of (setdefault_append d k l) = (map_of d)(k \<mapsto> lines_of d k @ [l])"
  by (induction d k l rule: setdefault_append.induct) (auto simp: lines_of_def)

lemma lines_of_setdefault_append:
  "lines_of (setdefault_append d k l) sec = (if sec = k then lines_of d k @ [l] else lines_of d sec)"
  by (simp add: lines_of_def map_of_setdefault_append)

lemma keys_setdefault_append:
  "fst ` set (setdefault_append d k l) = insert k (fst ` set d)"
  by (induction d k l rule: setdefault_append.induct) auto

lemma MPTcpExt_unknown: "map_of known_netstatstypes ''MPTcpExt:'' = None"
  by (simp add: known_netstatstypes_def)

lemma group_lines_step_known:
  assumes "py_split l = h # rest" and "map_of known_netstatstypes h = Some sec"
  shows "group_lines err stats (l # ls) d = group_lines err stats ls (setdefault_append d sec rest)"
  using assms MPTcpExt_unknown by auto

lemma group_lines_step_unknown:
  assumes "py_split l = h # rest" and "map_of known_netstatstypes h = None"
  shows "snd (group_lines err stats (l # ls) d) = snd (group_lines err stats ls d)"
  using assms by (simp split: prod.splits)

lemma group_lines_collects:
  "group_lines err stats ls d = (es, Inr d') \<Longrightarrow>
     lines_of d' sec = lines_of d sec @ map (\<lambda>l. tl (py_split l)) (filter (in_section sec) ls)
     \<and> fst ` set d' \<subseteq> fst ` set d \<union> snd ` set known_netstatstypes
     \<and> (\<forall>l \<in> set ls. py_split l \<noteq> [])"
proof (induction ls arbitrary: d es)
  case Nil
  then show ?case by simp
next
  case (Cons l ls)
  show ?case
  proof (cases "py_split l")
    case Nil
    with Cons.prems show ?thesis by simp
  next
    case (Cons h rest)
    note toks = this
    show ?thesis
    proof (cases "map_of known_netstatstypes h")
      case None
      from group_lines_step_unknown [OF toks None, of err stats ls d] Cons.prems
      have "snd (group_lines err stats ls d) = Inr d'" by simp
      then obtain es' where "group_lines err stats ls d = (es', Inr d')"
        by (cases "group_lines err stats ls d") simp
      from Cons.IH [OF this] toks None show ?thesis
        by (simp add: in_section_def)
    next
      case (Some k)
      from group_lines_step_known [OF toks Some, of err stats ls d] Cons.prems
      have "group_lines err stats ls (setdefault_append d k rest) = (es, Inr d')" by simp
      from Cons.IH [OF this] toks Some have
        1: "lines_of d' sec = lines_of (setdefault_append d k rest) sec @
              map (\<lambda>l. tl (py_split l)) (filter (in_section sec) ls)"
        and 2: "fst ` set d' \<subseteq> fst ` set (setdefault_append d k rest) \<union> snd ` set known_netstatstypes"
        and 3: "\<forall>l \<in> set ls. py_split l \<noteq> []"
        by simp_all
      from Some have "k \<in> snd ` set known_netstatstypes"
        by (force dest: map_of_SomeD)
      with 2 have keys: "fst ` set d' \<subseteq> fst ` set d \<union> snd ` set known_netstatstypes"
        by (auto simp: keys_setdefault_append)
      from 1 toks Some have "lines_of d' sec = lines_of d sec @
              map (\<lambda>l. tl (py_split l)) (filter (in_section sec) (l # ls))"
        by (simp add: lines_of_setdefault_append in_section_def)
      with keys 3 toks show ?thesis by simp
    qed
  qed
qed


lemma py_int_error: "py_int s = Inl x \<Longrightarrow> x = ValueError"
  by (auto simp: py_int_def split: list.splits if_splits option.splits)

lemma py_int_val_error: "py_int_val v = Inl x \<Longrightarrow> x = ValueError"
  by (cases v) (auto dest: py_int_error)

lemma correct_listen_drops_error: "correct_listen_drops stats = Inl x \<Longrightarrow> x = ValueError"
  by (auto simp: correct_listen_drops_def split: option.splits sum.splits dest: py_int_val_error)

lemma emit_section_error:
  "emit_section ts out sec ls = Inl x \<Longrightarrow> x = AssertionError \<or> x = ValueError"
  by (auto simp: emit_section_def split: list.splits sum.splits dest: correct_listen_drops_error)

lemma emit_section_assert: "length ls \<noteq> 2 \<Longrightarrow> emit_section ts out sec ls = Inl AssertionError"
  by (auto simp: emit_section_def split: list.splits)

lemma emit_sections_raises:
  "(sec, ls) \<in> set d \<Longrightarrow> length ls \<noteq> 2 \<Longrightarrow>
     \<exists>x. (x = AssertionError \<or> x = ValueError) \<and> snd (emit_sections ts out d) = Inl x"
proof (induction d)
  case Nil
  then show ?case by simp
next
  case (Cons p d)
  obtain k ls0 where p: "p = (k, ls0)" by (cases p)
  show ?case
  proof (cases "emit_section ts out k ls0")
    case (Inl x)
    with p emit_section_error [OF Inl] show ?thesis by simp
  next
    case (Inr es)
    with emit_section_assert [of ls0 ts out k] have "length ls0 = 2" by auto
    with Cons.prems p have "(sec, ls) \<in> set d" by auto
    from Cons.IH [OF this Cons.prems(2)] p Inr show ?thesis
      by (cases "emit_sections ts out d") auto
  qed
qed


lemma emit_netstat_raises:
  assumes "group_lines err stats (splitlines stats) [] = (w, Inr d)"
    and "emit_sections ts out d = (es, Inl x)"
  shows "emit_netstat ts stats out err = (w @ es, Inl x)"
  using assms by (simp add: emit_netstat_def)

lemma py_split_one_line: "py_split ''TcpExt: SyncookiesSent'' = [''TcpExt:'', ''SyncookiesSent'']"
  by (simp add: split_defs)

lemma group_lines_one_line_example:
  "group_lines err stats (splitlines one_line_example) [] =
     ([], Inr [(''tcp'', [[''SyncookiesSent'']])])"
proof -
  have "splitlines one_line_example = [''TcpExt: SyncookiesSent'']"
    by (simp add: one_line_example_def split_defs)
  then show ?thesis
    by (simp add: py_split_one_line known_netstatstypes_def)
qed

lemma emit_netstat_one_line_example:
  "emit_netstat ts one_line_example out err = ([], Inl AssertionError)"
  by (simp add: emit_netstat_def group_lines_one_line_example emit_section_def)

lemma pass_one_line_example:
  "parse_and_print_metrics ts 4096 sockstat_example one_line_example None None =
     ([Time ts, Seek Sockstat, Seek Netstat, ReadAll Sockstat, ReadAll Netstat,
       Print Stdout (''net.sockstat.num_sockets '' @ str_int ts @ '' 5 type=tcp''),
       Print Stdout (''net.sockstat.num_timewait '' @ str_int ts @ '' 2''),
       Print Stdout (''net.sockstat.sockets_inuse '' @ str_int ts @ '' 5 type=tcp''),
       Print Stdout (''net.sockstat.sockets_inuse '' @ str_int ts @ '' 3 type=udp''),
       Print Stdout (''net.sockstat.sockets_inuse '' @ str_int ts @ '' 0 type=raw''),
       Print Stdout (''net.sockstat.num_orphans '' @ str_int ts @ '' 1''),
       Print Stdout (''net.sockstat.memory '' @ str_int ts @ '' 40960 type=tcp''),
       Print Stdout (''net.sockstat.memory '' @ str_int ts @ '' 0 type=ipfrag''),
       Print Stdout (''net.sockstat.ipfragqueues '' @ str_int ts @ '' 0'')],
      Inl AssertionError)"
  by (simp add: parse_and_print_metrics_def match_sockstat_example emit_sockstat_example
      emit_netstat_one_line_example or_default_def)

text \<open>
  Claim C2, as the code has it. When the sockstat content matches, the first loop ends
  with a dictionary \<open>d\<close>, and some section of \<open>d\<close> has a number of lines other than two,
  the call of \<^verbatim>\<open>parse_and_print_metrics\<close> raises: \<^verbatim>\<open>AssertionError\<close> from line 330 (always
  so when the section is the first of the dictionary), or \<^verbatim>\<open>ValueError\<close> from line 334 in a
  section before it. Nothing catches the exception: it leaves the loop of \<^verbatim>\<open>main\<close>, the
  trace of the process is the trace of that one call, whatever rounds would follow, and
  the process ends with exit status 1.
\<close>

theorem bad_section_ends_process:
  assumes "ppid e \<noteq> 1" and "match_REGEXP (sockstat e) \<noteq> None"
    and "group_lines Stderr (netstat e) (splitlines (netstat e)) [] = (w, Inr d)"
    and "(sec, ls) \<in> set d" and "length ls \<noteq> 2"
  shows "\<exists>x. (x = AssertionError \<or> x = ValueError)
           \<and> (hd d = (sec, ls) \<longrightarrow> x = AssertionError)
           \<and> snd (parse_and_print_metrics (now e) page_size (sockstat e) (netstat e) None None) = Inl x
           \<and> main None page_size (e # envs) =
                (fst (parse_and_print_metrics (now e) page_size (sockstat e) (netstat e) None None),
                 Uncaught x)
           \<and> exit_status (snd (main None page_size (e # envs))) = Some 1"
proof -
  from emit_sections_raises [OF assms(4,5)] obtain x where
    x: "x = AssertionError \<or> x = ValueError" and
    raised: "snd (emit_sections (now e) Stdout d) = Inl x" by blast
  have first: "x = AssertionError" if "hd d = (sec, ls)"
  proof -
    from assms(4) that have "d = (sec, ls) # tl d" by (cases d) auto
    then have "emit_sections (now e) Stdout d = ([], Inl AssertionError)"
      using emit_section_assert [OF assms(5), of "now e" Stdout sec]
      by (metis emit_sections.simps(2) old.prod.case sum.simps(5))
    with raised show ?thesis by simp
  qed
  obtain es where "emit_sections (now e) Stdout d = (es, Inl x)"
    using raised by (cases "emit_sections (now e) Stdout d") simp
  from emit_netstat_raises [OF assms(3) this]
  have "snd (emit_netstat (now e) (netstat e) Stdout Stderr) = Inl x" by simp
  moreover from assms(2) obtain m where "match_REGEXP (sockstat e) = Some m" by auto
  ultimately have pass:
    "snd (parse_and_print_metrics (now e) page_size (sockstat e) (netstat e) None None) = Inl x"
    using pass_result_matched [of "sockstat e" m "now e" page_size "netstat e" None None]
    by (simp add: or_default_def)
  from main_loop_uncaught [OF assms(1) pass] x first pass show ?thesis by simp
qed

theorem bad_section_ends_process_witness:
  "match_REGEXP sockstat_example \<noteq> None
   \<and> group_lines Stderr one_line_example (splitlines one_line_example) [] =
        ([], Inr [(''tcp'', [[''SyncookiesSent'']])])
   \<and> snd (main None 4096
        [\<lparr>ppid = 7, now = 100, sockstat = sockstat_example, netstat = one_line_example\<rparr>,
         \<lparr>ppid = 7, now = 130, sockstat = sockstat_example, netstat = netstat_example\<rparr>])
       = Uncaught AssertionError"
proof -
  let ?e = "\<lparr>ppid = 7, now = 100, sockstat = sockstat_example, netstat = one_line_example\<rparr>"
  have a: "ppid ?e \<noteq> 1" by simp
  have b: "match_REGEXP (sockstat ?e) \<noteq> None" by (simp add: match_sockstat_example)
  have c: "group_lines Stderr (netstat ?e) (splitlines (netstat ?e)) [] =
        ([], Inr [(''tcp'', [[''SyncookiesSent'']])])"
    by (simp add: group_lines_one_line_example)
  have d: "(''tcp'', [[''SyncookiesSent'']]) \<in> set [(''tcp'', [[''SyncookiesSent'']])]" by simp
  have e: "length [[''SyncookiesSent'']] \<noteq> 2" by simp
  from bad_section_ends_process [OF a b c d e, of 4096
      "[\<lparr>ppid = 7, now = 130, sockstat = sockstat_example, netstat = netstat_example\<rparr>]"] b c
  show ?thesis by auto
qed

text \<open>
  The claim as the specification states it fails: a first round whose netstat content has
  one line for the section tcp ends the process on the uncaught \<^verbatim>\<open>AssertionError\<close>, and the
  second round that is due (its clock reading would be 130) is never started.
\<close>

theorem bad_section_kills_daemon:
  "snd (main None 4096
        [\<lparr>ppid = 7, now = 100, sockstat = sockstat_example, netstat = one_line_example\<rparr>,
         \<lparr>ppid = 7, now = 130, sockstat = sockstat_example, netstat = netstat_example\<rparr>])
     = Uncaught AssertionError
   \<and> exit_status (snd (main None 4096
        [\<lparr>ppid = 7, now = 100, sockstat = sockstat_example, netstat = one_line_example\<rparr>,
         \<lparr>ppid = 7, now = 130, sockstat = sockstat_example, netstat = netstat_example\<rparr>]))
     = Some 1
   \<and> Time 130 \<notin> set (fst (main None 4096
        [\<lparr>ppid = 7, now = 100, sockstat = sockstat_example, netstat = one_line_example\<rparr>,
         \<lparr>ppid = 7, now = 130, sockstat = sockstat_example, netstat = netstat_example\<rparr>]))"
  by (simp add: main_def pass_one_line_example)












lemma digit_of_digit: "n < 10 \<Longrightarrow> digit_of n \<in> set ''0123456789''"
  unfolding digit_of_def by (intro nth_mem) simp

lemma str_nat_digits: "set (str_nat n) \<subseteq> set ''0123456789''"
proof (induction n rule: str_nat.induct)
  case (1 n)
  show ?case
  proof (cases "n < 10")
    case True
    with digit_of_digit [OF True] show ?thesis
      by (subst str_nat.simps) simp
  next
    case False
    have "n mod 10 < 10" by simp
    from digit_of_digit [OF this] 1 [OF False] False show ?thesis
      by (subst str_nat.simps) simp
  qed
qed

lemma str_int_no_space: "CHR '' '' \<notin> set (str_int i)"
  using str_nat_digits [of "nat i"] str_nat_digits [of "nat (- i)"]
  by (auto simp: str_int_def)

lemma timestamp_field_line:
  assumes "CHR '' '' \<notin> set name" and "CHR '' '' \<notin> set t"
  shows "timestamp_field (name @ '' '' @ t @ '' '' @ rest) = t"
proof -
  have "dropWhile (\<lambda>c. c \<noteq> CHR '' '') (name @ CHR '' '' # t @ CHR '' '' # rest) =
          CHR '' '' # t @ CHR '' '' # rest"
    using assms(1) by (subst dropWhile_append2) auto
  moreover have "takeWhile (\<lambda>c. c \<noteq> CHR '' '') (t @ CHR '' '' # rest) = t"
    using assms(2) by (subst takeWhile_append2) auto
  ultimately show ?thesis by (simp add: timestamp_field_def)
qed

lemma print_sockstat_events:
  assumes "e \<in> set (print_sockstat ts metric v tags f)" and "CHR '' '' \<notin> set metric"
  shows "\<exists>s l. e = Print s l \<and> timestamp_field l = str_int ts"
proof -
  from assms(1) obtain s w where
    e: "e = Print s ((''net.sockstat.'' @ metric) @ '' '' @ str_int ts @ '' '' @ py_str w @ tags)"
    by (auto simp: print_sockstat_def split: option.splits)
  from assms(2) have "CHR '' '' \<notin> set (''net.sockstat.'' @ metric)" by simp
  from timestamp_field_line [OF this str_int_no_space] e show ?thesis by blast
qed

lemma emit_sockstat_events:
  assumes "e \<in> set (fst (emit_sockstat ts ps m out))"
  shows "\<exists>s l. e = Print s l \<and> timestamp_field l = str_int ts"
proof -
  have p: "\<exists>s l. e = Print s l \<and> timestamp_field l = str_int ts"
    if "e \<in> set (print_sockstat ts metric v tags f)"
      and "metric \<in> {''num_sockets'', ''num_timewait'', ''sockets_inuse'', ''num_orphans'',
                 ''memory'', ''ipfragqueues''}" for metric v tags f
  proof -
    from that(2) have "CHR '' '' \<notin> set metric" by auto
    with that(1) show ?thesis by (rule print_sockstat_events)
  qed
  show ?thesis
  proof (cases "py_int (tcp_pages m)")
    case (Inl x)
    with assms show ?thesis
      by (simp add: emit_sockstat_def Let_def) (elim disjE; erule p; simp)
  next
    case (Inr tp)
    note tp = this
    show ?thesis
    proof (cases "udp_pages m")
      case None
      with assms tp show ?thesis
        by (simp add: emit_sockstat_def Let_def) (elim disjE; erule p; simp)
    next
      case (Some ups)
      note ups = this
      show ?thesis
      proof (cases "py_int ups")
        case (Inl x)
        with assms tp ups show ?thesis
          by (simp add: emit_sockstat_def Let_def) (elim disjE; erule p; simp)
      next
        case (Inr up)
        with assms tp ups show ?thesis
          by (simp add: emit_sockstat_def Let_def) (elim disjE; erule p; simp)
      qed
    qed
  qed
qed

lemma known_section_no_space:
  "sec \<in> snd ` set known_netstatstypes \<Longrightarrow> CHR '' '' \<notin> set sec"
  by (auto simp: known_netstatstypes_def)

lemma known_metric_no_space:
  "(stat, metric, tags) \<in> set known_netstats \<Longrightarrow> CHR '' '' \<notin> set metric"
  by (auto simp: known_netstats_def)

lemma print_netstat_timestamp:
  assumes "CHR '' '' \<notin> set sec" and "CHR '' '' \<notin> set metric"
  shows "\<exists>s l. print_netstat ts sec metric v tags (Some out) = Print s l \<and>
           timestamp_field l = str_int ts"
proof -
  from print_netstat_text [of ts sec metric v tags out] obtain rest where
    "print_netstat ts sec metric v tags (Some out) =
       Print out ((''net.stat.'' @ sec @ ''.'' @ metric) @ '' '' @ str_int ts @ '' '' @ rest)"
    by auto
  moreover from assms have "CHR '' '' \<notin> set (''net.stat.'' @ sec @ ''.'' @ metric)" by simp
  from timestamp_field_line [OF this str_int_no_space]
  have "timestamp_field ((''net.stat.'' @ sec @ ''.'' @ metric) @ '' '' @ str_int ts @ '' '' @ rest)
          = str_int ts" .
  ultimately show ?thesis by blast
qed

lemma emit_netstat_timestamps:
  assumes "e \<in> set (fst (emit_netstat ts stats out err))"
  shows "\<exists>s l. e = Print s l \<and> ((\<exists>line. l = warning line stats) \<or> timestamp_field l = str_int ts)"
proof -
  obtain es r where en: "emit_netstat ts stats out err = (es, r)"
    by (cases "emit_netstat ts stats out err")
  with assms have "e \<in> set es" by simp
  from emit_netstat_cases [OF en this] show ?thesis
  proof (elim disjE exE conjE)
    fix es1 r1
    assume "group_lines err stats (splitlines stats) [] = (es1, r1)" "e \<in> set es1"
    from group_lines_events [OF this] show ?thesis by blast
  next
    fix w d es2 r2
    assume g: "group_lines err stats (splitlines stats) [] = (w, Inr d)"
      and s: "emit_sections ts out d = (es2, r2)" "e \<in> set es2"
    from emit_sections_events [OF s] obtain sec stat metric tags v where
      sec: "sec \<in> fst ` set d" and tbl: "(stat, metric, tags) \<in> set known_netstats"
      and e: "e = print_netstat ts sec metric v tags (Some out)" by blast
    from group_lines_collects [OF g, of sec] sec
    have "sec \<in> snd ` set known_netstatstypes" by auto
    from print_netstat_timestamp [OF known_section_no_space [OF this] known_metric_no_space [OF tbl]]
    obtain s l where "print_netstat ts sec metric v tags (Some out) = Print s l"
        "timestamp_field l = str_int ts" by blast
    with e show ?thesis by blast
  qed
qed

lemma pass_events_shape:
  "\<exists>es. fst (parse_and_print_metrics ts ps data stats ofs ofe) =
           [Time ts, Seek Sockstat, Seek Netstat, ReadAll Sockstat, ReadAll Netstat] @ es
        \<and> (\<forall>e \<in> set es.
             (match_REGEXP data = None \<and>
              e = Print (or_default ofe Stderr) (''Cannot parse sockstat: '' @ py_repr data))
             \<or> (\<exists>m. match_REGEXP data = Some m \<and>
                     e \<in> set (fst (emit_sockstat ts ps m (or_default ofs Stdout))))
             \<or> e \<in> set (fst (emit_netstat ts stats (or_default ofs Stdout) (or_default ofe Stderr))))"
proof (cases "match_REGEXP data")
  case None
  then show ?thesis by (simp add: parse_and_print_metrics_def)
next
  case (Some m)
  obtain es1 r1 where s: "emit_sockstat ts ps m (or_default ofs Stdout) = (es1, r1)"
    by (cases "emit_sockstat ts ps m (or_default ofs Stdout)")
  obtain es2 r2 where n:
    "emit_netstat ts stats (or_default ofs Stdout) (or_default ofe Stderr) = (es2, r2)"
    by (cases "emit_netstat ts stats (or_default ofs Stdout) (or_default ofe Stderr)")
  from Some s n show ?thesis
    by (cases r1; cases r2) (auto simp: parse_and_print_metrics_def)
qed

text \<open>
  Claim C8. The trace of one call starts with the one reading of the clock, before the two
  files are sought and read, and the rest of the trace is prints only, in which the clock
  is not read again. Every printed line is either one of the two diagnostics (the sockstat
  parse failure, the warning for an unknown netstat header) or a metric line, sockstat or
  netstat, whose timestamp field is that one clock reading.
\<close>

theorem one_timestamp_per_pass:
  "take 5 (fst (parse_and_print_metrics ts page_size data stats ofs ofe)) =
      [Time ts, Seek Sockstat, Seek Netstat, ReadAll Sockstat, ReadAll Netstat]
   \<and> (\<forall>e \<in> set (drop 5 (fst (parse_and_print_metrics ts page_size data stats ofs ofe))).
         \<exists>s l. e = Print s l \<and>
           (l = ''Cannot parse sockstat: '' @ py_repr data
            \<or> (\<exists>line. l = warning line stats)
            \<or> timestamp_field l = str_int ts))"
proof -
  from pass_events_shape [of ts page_size data stats ofs ofe] obtain es where
    evs: "fst (parse_and_print_metrics ts page_size data stats ofs ofe) =
           [Time ts, Seek Sockstat, Seek Netstat, ReadAll Sockstat, ReadAll Netstat] @ es"
    and shape: "\<forall>e \<in> set es.
             (match_REGEXP data = None \<and>
              e = Print (or_default ofe Stderr) (''Cannot parse sockstat: '' @ py_repr data))
             \<or> (\<exists>m. match_REGEXP data = Some m \<and>
                     e \<in> set (fst (emit_sockstat ts page_size m (or_default ofs Stdout))))
             \<or> e \<in> set (fst (emit_netstat ts stats (or_default ofs Stdout) (or_default ofe Stderr)))"
    by blast
  have "\<exists>s l. e = Print s l \<and>
           (l = ''Cannot parse sockstat: '' @ py_repr data
            \<or> (\<exists>line. l = warning line stats)
            \<or> timestamp_field l = str_int ts)" if "e \<in> set es" for e
  proof -
    from shape that consider
      (diag) "e = Print (or_default ofe Stderr) (''Cannot parse sockstat: '' @ py_repr data)"
      | (sock) m where "e \<in> set (fst (emit_sockstat ts page_size m (or_default ofs Stdout)))"
      | (net) "e \<in> set (fst (emit_netstat ts stats (or_default ofs Stdout) (or_default ofe Stderr)))"
      by blast
    then show ?thesis
    proof cases
      case diag
      then show ?thesis by blast
    next
      case sock
      from emit_sockstat_events [OF this] show ?thesis by blast
    next
      case net
      from emit_netstat_timestamps [OF this] show ?thesis by blast
    qed
  qed
  with evs show ?thesis by simp
qed

theorem one_timestamp_per_pass_witness:
  "Print Stdout ''net.stat.tcp.failed_accept 100 7 reason=other''
     \<in> set (drop 5 (fst (parse_and_print_metrics 100 4096 sockstat_example netstat_example None None)))
   \<and> Print Stdout ''net.sockstat.num_timewait 100 2''
     \<in> set (drop 5 (fst (parse_and_print_metrics 100 4096 sockstat_example netstat_example None None)))
   \<and> timestamp_field ''net.stat.tcp.failed_accept 100 7 reason=other'' = str_int 100
   \<and> timestamp_field ''net.sockstat.num_timewait 100 2'' = str_int 100
   \<and> take 5 (fst (parse_and_print_metrics 100 4096 sockstat_example netstat_example None None)) =
      [Time 100, Seek Sockstat, Seek Netstat, ReadAll Sockstat, ReadAll Netstat]"
proof -
  let ?evs = "fst (parse_and_print_metrics 100 4096 sockstat_example netstat_example None None)"
  have ts: "str_int 100 = ''100''"
    by (simp add: str_int_def str_nat.simps digit_of_def)
  have net: "fst (emit_netstat 100 netstat_example Stdout Stderr) =
       [Print Stdout ''net.stat.tcp.failed_accept 100 3 reason=full_acceptq'',
        Print Stdout ''net.stat.tcp.failed_accept 100 7 reason=other'']"
    by (simp add: emit_netstat_def group_lines_netstat_example emit_section_example ts)
  note evs = pass_events_matched(1) [OF match_sockstat_example emit_sockstat_example,
      where ofs = None and ofe = None and stats = netstat_example and ts = 100]
  have a: "Print Stdout ''net.stat.tcp.failed_accept 100 7 reason=other'' \<in> set (drop 5 ?evs)"
    by (simp add: evs or_default_def net ts)
  have b: "Print Stdout ''net.sockstat.num_timewait 100 2'' \<in> set (drop 5 ?evs)"
    by (simp add: evs or_default_def net ts)
  note inst = one_timestamp_per_pass [of 100 4096 sockstat_example netstat_example None None]
  from inst a have "\<exists>s l. Print Stdout ''net.stat.tcp.failed_accept 100 7 reason=other'' = Print s l \<and>
           (l = ''Cannot parse sockstat: '' @ py_repr sockstat_example
            \<or> (\<exists>line. l = warning line netstat_example)
            \<or> timestamp_field l = str_int 100)" by blast
  then have c: "timestamp_field ''net.stat.tcp.failed_accept 100 7 reason=other'' = str_int 100"
    by (auto simp: warning_def)
  from inst b have "\<exists>s l. Print Stdout ''net.sockstat.num_timewait 100 2'' = Print s l \<and>
           (l = ''Cannot parse sockstat: '' @ py_repr sockstat_example
            \<or> (\<exists>line. l = warning line netstat_example)
            \<or> timestamp_field l = str_int 100)" by blast
  then have d: "timestamp_field ''net.sockstat.num_timewait 100 2'' = str_int 100"
    by (auto simp: warning_def)
  from inst a b c d show ?thesis by simp
qed












end
